theory Spec2Isabelle
  imports Main "HOL-Library.Sublist"
begin

section \<open>The session client of notebook/static/services/sessions/remote.js\<close>

text \<open>
  The module defines one class, \<^verbatim>\<open>Remote\<close>: a WebSocket client that opens a
  transport to \<^verbatim>\<open>master_url/api/sessions/<id>/ws\<close>, reacts to the transport's open,
  close, error and message events, schedules a reconnect after a loss and processes inbound
  frames through a promise chain. JavaScript runs one callback at a time, so every method
  and every event handler is a function from the state before to the state after.

  The state holds the fields of \<^verbatim>\<open>this\<close> and, next to them, the objects the code
  shares with its environment: the WebSocket objects it has created (a store indexed by
  the number of the \<^verbatim>\<open>start_channel\<close> call that created them), the closure variable
  \<^verbatim>\<open>already_called_onclose\<close> of each such call, the timers armed with
  \<^verbatim>\<open>setTimeout\<close>, the notifications handed to \<^verbatim>\<open>events.trigger\<close> and the console.
\<close>

subsection \<open>Values\<close>

datatype json =
    JNull
  | JBool bool
  | JNum int
  | JStr string
  | JArr "json list"
  | JObj "(string \<times> json) list"

text \<open>What \<^verbatim>\<open>if (v)\<close> and \<^verbatim>\<open>v || d\<close> test.\<close>

definition truthy :: "json \<Rightarrow> bool" where
  "truthy j = (case j of JNull \<Rightarrow> False | JBool b \<Rightarrow> b | JNum n \<Rightarrow> n \<noteq> 0
               | JStr x \<Rightarrow> x \<noteq> [] | JArr _ \<Rightarrow> True | JObj _ \<Rightarrow> True)"

datatype js_error =
    Error string
  | TypeError string
  | CodecError string
  | WrappedError string js_error

text \<open>
  A message id. \<^verbatim>\<open>utils.uuid\<close> lives in base/js/utils, which is not part of the
  file; the state carries the number of ids handed out so far.
\<close>

datatype uuid = Uuid nat

record header =
  msg_id :: uuid
  username_h :: string
  session_h :: string
  msg_type :: string
  version :: string

record envelope =
  header_of :: header
  metadata :: json
  content :: json
  buffers :: "string list"
  parent_header :: json
  channel :: "string option"

subsection \<open>Promises\<close>

text \<open>
  A promise is described by the turn of the event loop at which it settles and by how it
  settles. A reaction registered with \<^verbatim>\<open>then\<close> or \<^verbatim>\<open>catch\<close> is a job of its own:
  it runs in a later turn than the one that settled the promise and than the one that
  registered it. The callback is given the turn in which it runs and answers with the
  promise its result resolves to (a plain return value is a promise settled at once, a
  \<^verbatim>\<open>throw\<close> a promise rejected at once) and with the effects it had, which are stamped
  with that turn. A reaction of the other kind passes the settlement on.
\<close>

datatype 'a outcome = Fulfilled 'a | Rejected js_error

datatype 'a promise = Promise (settled_at: nat) (outcome: "'a outcome")

definition promise_resolve :: "'a \<Rightarrow> 'a promise" where
  "promise_resolve v = Promise 0 (Fulfilled v)"

definition then_p ::
  "'a promise \<Rightarrow> nat \<Rightarrow> (nat \<Rightarrow> 'a \<Rightarrow> 'b promise \<times> 'e list) \<Rightarrow> 'b promise \<times> (nat \<times> 'e) list" where
  "then_p p registered on_fulfilled =
     (let run = max (settled_at p) registered + 1 in
      case outcome p of
        Fulfilled v \<Rightarrow>
          (let (q, effects) = on_fulfilled run v
           in (Promise (max run (settled_at q)) (outcome q), map (Pair run) effects))
      | Rejected e \<Rightarrow> (Promise run (Rejected e), []))"

definition catch_p ::
  "'a promise \<Rightarrow> nat \<Rightarrow> (nat \<Rightarrow> js_error \<Rightarrow> 'a promise \<times> 'e list) \<Rightarrow> 'a promise \<times> (nat \<times> 'e) list" where
  "catch_p p registered on_rejected =
     (let run = max (settled_at p) registered + 1 in
      case outcome p of
        Fulfilled v \<Rightarrow> (Promise run (Fulfilled v), [])
      | Rejected e \<Rightarrow>
          (let (q, effects) = on_rejected run e
           in (Promise (max run (settled_at q)) (outcome q), map (Pair run) effects)))"

subsection \<open>The state\<close>

datatype ready_state = CONNECTING | OPEN | CLOSING | CLOSED

text \<open>
  What \<^verbatim>\<open>ws.onclose\<close> can hold: the early or the late handler of the
  \<^verbatim>\<open>start_channel\<close> call with the given number (the handler tests and sets that call's
  \<^verbatim>\<open>already_called_onclose\<close>), or the \<^verbatim>\<open>close\<close> function of \<^verbatim>\<open>stop_channel\<close>.
  \<^verbatim>\<open>ws.onerror\<close> is always a \<^verbatim>\<open>ws_error\<close>, so the field holds only the number of
  its call. \<^verbatim>\<open>onopen\<close> and \<^verbatim>\<open>onmessage\<close> are set once, to \<^verbatim>\<open>_ws_opened\<close> and
  \<^verbatim>\<open>_handle_ws_message\<close>, and need no field.
\<close>

datatype close_handler = early_handler nat | late_handler nat | close_function

record websocket =
  url :: string
  readyState :: ready_state
  onclose :: close_handler
  onerror :: nat
  sent :: "envelope list"

text \<open>
  The two callbacks the file passes to \<^verbatim>\<open>setTimeout\<close>: the function of
  \<^verbatim>\<open>start_channel\<close> call \<open>g\<close> that installs its late-close handler, and
  \<^verbatim>\<open>$.proxy(this.reconnect, this)\<close>.
\<close>

datatype timer_callback = late_switch nat | proxy_reconnect

record timer =
  delay_ms :: nat
  callback :: timer_callback
  fired :: bool

datatype event =
    ev_remote_connected
  | ev_remote_ready
  | ev_remote_disconnected
  | ev_remote_connection_failed string nat
  | ev_remote_connection_dead nat
  | ev_input_reply json
  | ev_exec json

datatype log_line =
    log_status event
  | log_starting string
  | log_connection_failed string
  | log_reconnecting nat
  | log_giving_up
  | log_message json
  | log_error js_error

record remote =
  ws :: "nat option"
  master_url :: string
  username :: string
  session_id :: string
  msg_queue :: "unit promise"
  autorestart_attempt :: nat
  reconnect_attempt :: nat
  reconnect_limit :: nat
  sockets :: "nat \<Rightarrow> websocket"
  next_socket :: nat
  already_called_onclose :: "nat \<Rightarrow> bool"
  timers :: "timer list"
  triggered :: "event list"
  console :: "log_line list"
  processed :: "(nat \<times> (log_line + event)) list"
  uuid_count :: nat

text \<open>
  A socket that has not been created yet. No handle ever points at one; the store is
  total so that reading it needs no side condition.
\<close>

definition no_socket :: websocket where
  "no_socket = \<lparr>url = [], readyState = CLOSED, onclose = close_function, onerror = 0, sent = []\<rparr>"

subsection \<open>The constructor and the event bus\<close>

text \<open>
  \<^verbatim>\<open>this.master_url = master_url || utils.get_body_data("masterUrl")\<close>, and the page's
  own origin when that is empty too. The two values read from the page are arguments.
  The constructor's \<^verbatim>\<open>alert\<close> for a browser without WebSocket is not modelled: the
  transport is taken to exist.
\<close>

definition Remote :: "string \<Rightarrow> string \<Rightarrow> string \<Rightarrow> string \<Rightarrow> remote" where
  "Remote master_url_arg session_id_arg body_data location_ws =
     \<lparr>ws = None,
      master_url = (if master_url_arg \<noteq> [] then master_url_arg
                    else if body_data \<noteq> [] then body_data else location_ws),
      username = ''username'',
      session_id = session_id_arg,
      msg_queue = promise_resolve (),
      autorestart_attempt = 0,
      reconnect_attempt = 0,
      reconnect_limit = 7,
      sockets = (\<lambda>_. no_socket),
      next_socket = 0,
      already_called_onclose = (\<lambda>_. False),
      timers = [],
      triggered = [],
      console = [],
      processed = [],
      uuid_count = 0\<rparr>"

text \<open>
  \<^verbatim>\<open>events.trigger\<close>: the notification is recorded and the handlers that
  \<^verbatim>\<open>bind_events\<close> registered for it run: \<^verbatim>\<open>record_status\<close> for the status events,
  the reset of \<^verbatim>\<open>_autorestart_attempt\<close> on ready and the reset of
  \<^verbatim>\<open>_reconnect_attempt\<close> on connected. The file binds nothing to the other events
  it triggers.
\<close>

definition record_status :: "event \<Rightarrow> remote \<Rightarrow> remote" where
  "record_status ev s = s\<lparr>console := console s @ [log_status ev]\<rparr>"

fun trigger :: "event \<Rightarrow> remote \<Rightarrow> remote" where
  "trigger ev_remote_connected s =
     (record_status ev_remote_connected (s\<lparr>triggered := triggered s @ [ev_remote_connected]\<rparr>))
       \<lparr>reconnect_attempt := 0\<rparr>"
| "trigger ev_remote_ready s =
     (record_status ev_remote_ready (s\<lparr>triggered := triggered s @ [ev_remote_ready]\<rparr>))
       \<lparr>autorestart_attempt := 0\<rparr>"
| "trigger ev_remote_disconnected s =
     record_status ev_remote_disconnected (s\<lparr>triggered := triggered s @ [ev_remote_disconnected]\<rparr>)"
| "trigger ev s = s\<lparr>triggered := triggered s @ [ev]\<rparr>"

subsection \<open>The envelope builder\<close>

text \<open>
  \<^verbatim>\<open>_get_msg\<close>. An omitted argument is \<open>None\<close>; \<^verbatim>\<open>metadata || {}\<close> and
  \<^verbatim>\<open>buffers || []\<close> then give the empty object and the empty array. So does a
  metadata value that is not truthy; an array of buffers always is.
\<close>

text \<open>
  Modelled from the spec: \<^verbatim>\<open>utils.uuid\<close> (base/js/utils) is missing from the sources.
  The spec calls its result a newly generated unique id, fresh for every message, so the
  \<open>n\<close>-th call answers the \<open>n\<close>-th id and no id is handed out twice.
\<close>

definition utils_uuid :: "remote \<Rightarrow> uuid \<times> remote" where
  "utils_uuid s = (Uuid (uuid_count s), s\<lparr>uuid_count := Suc (uuid_count s)\<rparr>)"

definition get_msg ::
  "string \<Rightarrow> json \<Rightarrow> json option \<Rightarrow> string list option \<Rightarrow> remote \<Rightarrow> envelope \<times> remote" where
  "get_msg msg_type_arg content_arg metadata_arg buffers_arg s =
     (let (new_id, s') = utils_uuid s in
      (\<lparr>header_of = \<lparr>msg_id = new_id, username_h = username s, session_h = session_id s,
                      msg_type = msg_type_arg, version = ''5.0''\<rparr>,
        metadata = (case metadata_arg of None \<Rightarrow> JObj []
                    | Some m \<Rightarrow> if truthy m then m else JObj []),
        content = content_arg,
        buffers = (case buffers_arg of None \<Rightarrow> [] | Some b \<Rightarrow> b),
        parent_header = JObj [],
        channel = None\<rparr>, s'))"

subsection \<open>The connection manager\<close>

definition is_connected :: "remote \<Rightarrow> bool" where
  "is_connected s =
     (case ws s of None \<Rightarrow> False
      | Some k \<Rightarrow> if readyState (sockets s k) \<noteq> OPEN then False else True)"

definition is_fully_disconnected :: "remote \<Rightarrow> bool" where
  "is_fully_disconnected s = (ws s = None)"

text \<open>
  The function \<^verbatim>\<open>close\<close> inside \<^verbatim>\<open>stop_channel\<close>. It reads \<^verbatim>\<open>that.ws\<close>, the
  handle at the time it runs.
\<close>

definition stop_channel_close :: "remote \<Rightarrow> remote" where
  "stop_channel_close s =
     (case ws s of None \<Rightarrow> s
      | Some k \<Rightarrow> if readyState (sockets s k) = CLOSED then s\<lparr>ws := None\<rparr> else s)"

text \<open>
  \<^verbatim>\<open>stop_channel\<close>. \<^verbatim>\<open>ws.close()\<close> on an open socket starts the closing handshake:
  the socket is \<open>CLOSING\<close> from then on and its close event comes later.
\<close>

definition stop_channel :: "remote \<Rightarrow> remote" where
  "stop_channel s =
     (case ws s of None \<Rightarrow> s
      | Some k \<Rightarrow>
          if readyState (sockets s k) = OPEN
          then s\<lparr>sockets := (sockets s)(k := (sockets s k)\<lparr>onclose := close_function, readyState := CLOSING\<rparr>)\<rparr>
          else stop_channel_close s)"

definition remote_dead :: "remote \<Rightarrow> remote" where
  "remote_dead s = stop_channel s"

text \<open>
  The object has no method \<^verbatim>\<open>reconnect\<close>: the prototype gets \<^verbatim>\<open>_get_msg\<close>,
  \<^verbatim>\<open>bind_events\<close>, \<^verbatim>\<open>_on_success\<close>, \<^verbatim>\<open>_on_error\<close>, \<^verbatim>\<open>_remote_connected\<close>,
  \<^verbatim>\<open>_remote_dead\<close>, \<^verbatim>\<open>start_channel\<close>, \<^verbatim>\<open>_ws_opened\<close>, \<^verbatim>\<open>_ws_closed\<close>,
  \<^verbatim>\<open>_schedule_reconnect\<close>, \<^verbatim>\<open>stop_channel\<close>, \<^verbatim>\<open>is_connected\<close>,
  \<^verbatim>\<open>is_fully_disconnected\<close>, \<^verbatim>\<open>send_input_reply\<close> and \<^verbatim>\<open>_handle_ws_message\<close>, and
  the constructor sets no such field. \<^verbatim>\<open>this.reconnect\<close> is therefore
  \<^verbatim>\<open>undefined\<close>, \<^verbatim>\<open>$.proxy\<close> of it is \<^verbatim>\<open>undefined\<close>, and the timer has no
  function to call.
\<close>

definition reconnect :: "(remote \<Rightarrow> remote) option" where
  "reconnect = None"

definition set_timeout :: "timer_callback \<Rightarrow> nat \<Rightarrow> remote \<Rightarrow> remote" where
  "set_timeout cb ms s = s\<lparr>timers := timers s @ [\<lparr>delay_ms = ms, callback = cb, fired = False\<rparr>]\<rparr>"

definition schedule_reconnect :: "remote \<Rightarrow> remote" where
  "schedule_reconnect s =
     (if reconnect_attempt s < reconnect_limit s
      then (let timeout = 2 ^ reconnect_attempt s in
            set_timeout proxy_reconnect (1000 * timeout)
              (s\<lparr>console := console s @ [log_reconnecting timeout]\<rparr>))
      else (let s' = trigger (ev_remote_connection_dead (reconnect_attempt s)) s in
            s'\<lparr>console := console s' @ [log_giving_up]\<rparr>))"

definition ws_closed :: "string \<Rightarrow> bool \<Rightarrow> remote \<Rightarrow> remote" where
  "ws_closed url_arg error s =
     (let s1 = stop_channel s;
          s2 = trigger ev_remote_disconnected s1;
          s3 = (if error
                then trigger (ev_remote_connection_failed url_arg (reconnect_attempt s2))
                       (s2\<lparr>console := console s2 @ [log_connection_failed url_arg]\<rparr>)
                else s2)
      in schedule_reconnect s3)"

definition remote_connected :: "remote \<Rightarrow> remote" where
  "remote_connected s = trigger ev_remote_connected s"

definition ws_opened :: "remote \<Rightarrow> remote" where
  "ws_opened s = (if is_connected s then remote_connected s else s)"

text \<open>
  The three handlers that \<^verbatim>\<open>start_channel\<close> call \<open>g\<close> creates. They share that call's
  \<^verbatim>\<open>already_called_onclose\<close> and its \<^verbatim>\<open>ws_host_url\<close>, which is the address of the
  socket the call created.
\<close>

definition ws_closed_early :: "nat \<Rightarrow> bool \<Rightarrow> remote \<Rightarrow> remote" where
  "ws_closed_early g wasClean s =
     (if already_called_onclose s g then s
      else (let s' = s\<lparr>already_called_onclose := (already_called_onclose s)(g := True)\<rparr> in
            if \<not> wasClean then ws_closed (url (sockets s' g)) False s' else s'))"

definition ws_closed_late :: "nat \<Rightarrow> bool \<Rightarrow> remote \<Rightarrow> remote" where
  "ws_closed_late g wasClean s =
     (if already_called_onclose s g then s
      else (let s' = s\<lparr>already_called_onclose := (already_called_onclose s)(g := True)\<rparr> in
            if \<not> wasClean then ws_closed (url (sockets s' g)) False s' else s'))"

definition ws_error :: "nat \<Rightarrow> remote \<Rightarrow> remote" where
  "ws_error g s =
     (if already_called_onclose s g then s
      else (let s' = s\<lparr>already_called_onclose := (already_called_onclose s)(g := True)\<rparr> in
            ws_closed (url (sockets s' g)) True s'))"

definition start_channel :: "remote \<Rightarrow> remote" where
  "start_channel s =
     (let s1 = stop_channel s;
          ws_host_url = master_url s1 @ ''/api/sessions/'' @ session_id s1 @ ''/ws'';
          s2 = s1\<lparr>console := console s1 @ [log_starting ws_host_url]\<rparr>;
          g = next_socket s2;
          s3 = s2\<lparr>ws := Some g,
                  next_socket := Suc g,
                  sockets := (sockets s2)(g := \<lparr>url = ws_host_url, readyState = CONNECTING,
                                               onclose = early_handler g, onerror = g, sent = []\<rparr>),
                  already_called_onclose := (already_called_onclose s2)(g := False)\<rparr>
      in set_timeout (late_switch g) 1000 s3)"

subsection \<open>Sending an input reply\<close>

text \<open>
  \<^verbatim>\<open>send_input_reply\<close> throws when the client is not connected; the result is then
  the error, next to the state the call leaves behind. \<^verbatim>\<open>serialize.serialize\<close> is
  outside the file: the socket's \<open>sent\<close> list records the envelope handed to it.
\<close>

definition ws_send :: "envelope \<Rightarrow> remote \<Rightarrow> remote" where
  "ws_send m s =
     (case ws s of None \<Rightarrow> s
      | Some k \<Rightarrow> s\<lparr>sockets := (sockets s)(k := (sockets s k)\<lparr>sent := sent (sockets s k) @ [m]\<rparr>)\<rparr>)"

definition send_input_reply :: "string \<Rightarrow> remote \<Rightarrow> (js_error + uuid) \<times> remote" where
  "send_input_reply input s =
     (if \<not> is_connected s then (Inl (Error ''remote is not connected''), s)
      else (let content_v = JObj [(''value'', JStr input)];
                s1 = trigger (ev_input_reply content_v) s;
                (msg, s2) = get_msg ''input_reply'' content_v None None s1;
                msg' = msg\<lparr>channel := Some ''stdin''\<rparr>;
                s3 = ws_send msg' s2
            in (Inr (msg_id (header_of msg')), s3)))"

subsection \<open>The message sequencer\<close>

text \<open>
  An inbound frame, with what the environment decides about it: the turn in which the
  message event is delivered, and what \<^verbatim>\<open>serialize.deserialize\<close> (outside the file)
  makes of its data: the number of turns the decoding takes and the decoded message or
  the error it fails with.
\<close>

record frame =
  data :: string
  arrival :: nat
  decode_latency :: nat
  decoded :: "js_error + json"

text \<open>\<^verbatim>\<open>msg.exec\<close>: the field of an object, \<^verbatim>\<open>undefined\<close> on any other value but
  \<^verbatim>\<open>null\<close>, where reading it throws.\<close>

definition exec_field :: "json \<Rightarrow> js_error + json option" where
  "exec_field m = (case m of JNull \<Rightarrow> Inl (TypeError ''exec'')
                   | JObj kvs \<Rightarrow> Inr (map_of kvs ''exec'')
                   | _ \<Rightarrow> Inr None)"

text \<open>The first callback: \<^verbatim>\<open>return serialize.deserialize(e.data)\<close>.\<close>

definition decode_step :: "frame \<Rightarrow> nat \<Rightarrow> unit \<Rightarrow> json promise \<times> (log_line + event) list" where
  "decode_step e run u =
     (Promise (run + decode_latency e)
        (case decoded e of Inl err \<Rightarrow> Rejected err | Inr m \<Rightarrow> Fulfilled m), [])"

text \<open>
  The second callback: \<^verbatim>\<open>console.log(msg)\<close>, the exec notification when
  \<^verbatim>\<open>msg.exec\<close> is truthy, and \<^verbatim>\<open>Promise.resolve()\<close>.
\<close>

definition dispatch_step :: "nat \<Rightarrow> json \<Rightarrow> unit promise \<times> (log_line + event) list" where
  "dispatch_step run m =
     (case exec_field m of
        Inl err \<Rightarrow> (Promise run (Rejected err), [Inl (log_message m)])
      | Inr None \<Rightarrow> (Promise run (Fulfilled ()), [Inl (log_message m)])
      | Inr (Some x) \<Rightarrow>
          (Promise run (Fulfilled ()),
           if truthy x then [Inl (log_message m), Inr (ev_exec x)] else [Inl (log_message m)]))"

text \<open>
  Modelled from the spec: \<^verbatim>\<open>utils.reject\<close> (base/js/utils) is missing from the sources.
  The spec says that the error of a failing frame is reported (logged) and does not abort
  the chain; so the handler that \<^verbatim>\<open>utils.reject(message, log)\<close> makes logs the wrapped
  error when \<open>log\<close> is set and returns normally.
\<close>

definition utils_reject :: "string \<Rightarrow> bool \<Rightarrow> nat \<Rightarrow> js_error \<Rightarrow> unit promise \<times> js_error list" where
  "utils_reject message log run e =
     (Promise run (Fulfilled ()), if log then [WrappedError message e] else [])"

text \<open>
  \<^verbatim>\<open>_handle_ws_message\<close>, for any handler given to \<^verbatim>\<open>catch\<close>: a handler answers
  with the promise it returns and with the errors it reports. The three reactions are
  registered in the turn the frame arrives; what their callbacks do later is recorded,
  with its turn, in \<open>processed\<close>.
\<close>

definition handle_ws_message_with ::
  "(nat \<Rightarrow> js_error \<Rightarrow> unit promise \<times> js_error list) \<Rightarrow> frame \<Rightarrow> remote \<Rightarrow> remote" where
  "handle_ws_message_with on_rejected e s =
     (let (p1, done1) = then_p (msg_queue s) (arrival e) (decode_step e);
          (p2, done2) = then_p p1 (arrival e) dispatch_step;
          (p3, done3) = catch_p p2 (arrival e)
                          (\<lambda>run err. let (q, reported) = on_rejected run err
                                      in (q, map (\<lambda>x. Inl (log_error x)) reported))
      in s\<lparr>msg_queue := p3, processed := processed s @ done1 @ done2 @ done3\<rparr>)"

definition handle_ws_message :: "frame \<Rightarrow> remote \<Rightarrow> remote" where
  "handle_ws_message = handle_ws_message_with (utils_reject ''Couldn't process remote message'' True)"

subsection \<open>The environment\<close>

text \<open>
  What can happen to a client: a call of one of its public methods, an event of one of
  the sockets it created, or a timer running out. The browser sets a socket's
  \<^verbatim>\<open>readyState\<close> before it calls the handler: \<open>OPEN\<close> for the open event, \<open>CLOSED\<close>
  for the close and the error event (an error is reported when the connection has failed,
  and the close event follows it). A timer runs once.
\<close>

datatype op =
    StartChannel
  | StopChannel
  | SendInputReply string
  | WsOpen nat
  | WsClose nat bool
  | WsError nat
  | WsMessage nat frame
  | TimerFire nat

definition set_ready :: "nat \<Rightarrow> ready_state \<Rightarrow> remote \<Rightarrow> remote" where
  "set_ready k r s = s\<lparr>sockets := (sockets s)(k := (sockets s k)\<lparr>readyState := r\<rparr>)\<rparr>"

fun run_callback :: "timer_callback \<Rightarrow> remote \<Rightarrow> remote" where
  "run_callback (late_switch g) s =
     (case ws s of None \<Rightarrow> s
      | Some k \<Rightarrow> s\<lparr>sockets := (sockets s)(k := (sockets s k)\<lparr>onclose := late_handler g\<rparr>)\<rparr>)"
| "run_callback proxy_reconnect s = (case reconnect of None \<Rightarrow> s | Some f \<Rightarrow> f s)"

fun call_onclose :: "close_handler \<Rightarrow> bool \<Rightarrow> remote \<Rightarrow> remote" where
  "call_onclose (early_handler g) wasClean s = ws_closed_early g wasClean s"
| "call_onclose (late_handler g) wasClean s = ws_closed_late g wasClean s"
| "call_onclose close_function wasClean s = stop_channel_close s"

fun step :: "op \<Rightarrow> remote \<Rightarrow> remote" where
  "step StartChannel s = start_channel s"
| "step StopChannel s = stop_channel s"
| "step (SendInputReply v) s = snd (send_input_reply v s)"
| "step (WsOpen k) s =
     (if k < next_socket s \<and> readyState (sockets s k) = CONNECTING
      then ws_opened (set_ready k OPEN s) else s)"
| "step (WsClose k wasClean) s =
     (if k < next_socket s
      then call_onclose (onclose (sockets s k)) wasClean (set_ready k CLOSED s) else s)"
| "step (WsError k) s =
     (if k < next_socket s then ws_error (onerror (sockets s k)) (set_ready k CLOSED s) else s)"
| "step (WsMessage k e) s = (if k < next_socket s then handle_ws_message e s else s)"
| "step (TimerFire i) s =
     (if i < length (timers s) \<and> \<not> fired (timers s ! i)
      then run_callback (callback (timers s ! i))
             (s\<lparr>timers := (timers s)[i := (timers s ! i)\<lparr>fired := True\<rparr>]\<rparr>)
      else s)"

fun run :: "op list \<Rightarrow> remote \<Rightarrow> remote" where
  "run [] s = s"
| "run (x # xs) s = run xs (step x s)"

subsection \<open>Observations\<close>

text \<open>
  The frames of a list handed to \<^verbatim>\<open>_handle_ws_message\<close> one after the other, in the
  order of the list.
\<close>

fun receive_with ::
  "(nat \<Rightarrow> js_error \<Rightarrow> unit promise \<times> js_error list) \<Rightarrow> frame list \<Rightarrow> remote \<Rightarrow> remote" where
  "receive_with h [] s = s"
| "receive_with h (e # es) s = receive_with h es (handle_ws_message_with h e s)"

fun receive :: "frame list \<Rightarrow> remote \<Rightarrow> remote" where
  "receive [] s = s"
| "receive (e # es) s = receive es (handle_ws_message e s)"

text \<open>
  The dispatch steps among the recorded effects: the second callback starts with
  \<^verbatim>\<open>console.log(msg)\<close>, so each of its runs leaves one such line, with its turn and
  the message. \<open>dispatch_order\<close> lists the messages by the turn of their dispatch, and
  \<open>reported\<close> the errors that were logged.
\<close>

fun dispatched :: "(nat \<times> (log_line + event)) list \<Rightarrow> (nat \<times> json) list" where
  "dispatched [] = []"
| "dispatched ((t, Inl (log_message m)) # xs) = (t, m) # dispatched xs"
| "dispatched (x # xs) = dispatched xs"

definition dispatch_order :: "remote \<Rightarrow> json list" where
  "dispatch_order s = map snd (sort_key fst (dispatched (processed s)))"

fun reported :: "(nat \<times> (log_line + event)) list \<Rightarrow> js_error list" where
  "reported [] = []"
| "reported ((t, Inl (log_error e)) # xs) = e # reported xs"
| "reported (x # xs) = reported xs"

text \<open>What a frame hands to the dispatch step: its message, when the decoding succeeds.\<close>

definition decoded_message :: "frame \<Rightarrow> json list" where
  "decoded_message e = (case decoded e of Inl err \<Rightarrow> [] | Inr m \<Rightarrow> [m])"

text \<open>The error that the processing of a frame raises: the decoder's, or the one of the
  dispatch step.\<close>

definition failure :: "frame \<Rightarrow> js_error list" where
  "failure e =
     (case decoded e of
        Inl err \<Rightarrow> [err]
      | Inr m \<Rightarrow> (case exec_field m of Inl err \<Rightarrow> [err] | Inr x \<Rightarrow> []))"

section \<open>Properties\<close>

text \<open>The client that the examples start from: a new object for session \<open>s1\<close>.\<close>

abbreviation fresh :: remote where
  "fresh \<equiv> Remote ''ws://host'' ''s1'' [] []"

text \<open>The definitions that a run of the methods unfolds to.\<close>

lemmas op_defs =
  Remote_def promise_resolve_def no_socket_def record_status_def
  is_connected_def is_fully_disconnected_def stop_channel_close_def stop_channel_def
  remote_dead_def reconnect_def set_timeout_def schedule_reconnect_def ws_closed_def
  remote_connected_def ws_opened_def ws_closed_early_def ws_closed_late_def ws_error_def
  start_channel_def set_ready_def Let_def

subsection \<open>Backoff\<close>

text \<open>
  C1. With the ceiling the constructor sets (7), a loss handled at attempt count \<open>a\<close>,
  for every \<open>a\<close> from 0 to 6, arms the reconnect timer for \<open>2 ^ a\<close> seconds (the delay
  is kept in milliseconds) and reports nothing: retrying is allowed. At attempt count 7
  no timer is armed and the dead notification is sent instead: retrying is not allowed.
\<close>

theorem C1_backoff_delay_and_ceiling:
  "reconnect_limit s = 7 \<Longrightarrow>
   (\<forall>a\<le>6.
      timers (schedule_reconnect (s\<lparr>reconnect_attempt := a\<rparr>)) =
        timers s @ [\<lparr>delay_ms = 1000 * 2 ^ a, callback = proxy_reconnect, fired = False\<rparr>] \<and>
      triggered (schedule_reconnect (s\<lparr>reconnect_attempt := a\<rparr>)) = triggered s) \<and>
   timers (schedule_reconnect (s\<lparr>reconnect_attempt := 7\<rparr>)) = timers s \<and>
   triggered (schedule_reconnect (s\<lparr>reconnect_attempt := 7\<rparr>)) =
     triggered s @ [ev_remote_connection_dead 7]"
  by (simp add: schedule_reconnect_def set_timeout_def Let_def)

text \<open>C1 at a new client, for the attempt counts 3 and 7.\<close>

theorem C1_backoff_witness:
  "reconnect_limit fresh = 7 \<and>
   timers (schedule_reconnect (fresh\<lparr>reconnect_attempt := 3\<rparr>)) =
     [\<lparr>delay_ms = 8000, callback = proxy_reconnect, fired = False\<rparr>] \<and>
   triggered (schedule_reconnect (fresh\<lparr>reconnect_attempt := 3\<rparr>)) = [] \<and>
   timers (schedule_reconnect (fresh\<lparr>reconnect_attempt := 7\<rparr>)) = [] \<and>
   triggered (schedule_reconnect (fresh\<lparr>reconnect_attempt := 7\<rparr>)) =
     [ev_remote_connection_dead 7]"
proof -
  have limit: "reconnect_limit fresh = 7"
    by (simp add: Remote_def)
  have start: "timers fresh = []" "triggered fresh = []"
    by (simp_all add: Remote_def)
  note all = C1_backoff_delay_and_ceiling [OF limit]
  from all have
    "timers (schedule_reconnect (fresh\<lparr>reconnect_attempt := 3\<rparr>)) =
       timers fresh @ [\<lparr>delay_ms = 1000 * 2 ^ 3, callback = proxy_reconnect, fired = False\<rparr>]"
    and "triggered (schedule_reconnect (fresh\<lparr>reconnect_attempt := 3\<rparr>)) = triggered fresh"
    by simp_all
  with all limit show ?thesis
    by (simp add: start)
qed

subsection \<open>Stopping the channel\<close>

lemma stop_channel_twice: "stop_channel (stop_channel s) = stop_channel s"
  by (cases "ws s") (auto simp: stop_channel_def stop_channel_close_def)

lemma stop_channel_not_connected: "\<not> is_connected (stop_channel s)"
  by (cases "ws s") (auto simp: stop_channel_def stop_channel_close_def is_connected_def)

lemma stop_channel_handle:
  "is_fully_disconnected (stop_channel s) =
     (case ws s of None \<Rightarrow> True | Some k \<Rightarrow> readyState (sockets s k) = CLOSED)"
  by (cases "ws s") (auto simp: stop_channel_def stop_channel_close_def is_fully_disconnected_def)

text \<open>
  C7, as the code has it. A second \<^verbatim>\<open>stop_channel\<close> in a row changes nothing more, a
  call without a transport handle changes nothing, and after any call \<^verbatim>\<open>is_connected\<close>
  is false. \<^verbatim>\<open>is_fully_disconnected\<close> is true after the call exactly when there was no
  handle or the transport was already closed: for an open transport the call only starts
  the close, and a connecting or closing transport is left as it is.
\<close>

theorem C7_stop_channel_amended:
  "stop_channel (stop_channel s) = stop_channel s \<and>
   stop_channel (s\<lparr>ws := None\<rparr>) = s\<lparr>ws := None\<rparr> \<and>
   is_connected (stop_channel s) = False \<and>
   is_fully_disconnected (stop_channel s) =
     (case ws s of None \<Rightarrow> True | Some k \<Rightarrow> readyState (sockets s k) = CLOSED)"
  using stop_channel_twice [of s] stop_channel_not_connected [of s] stop_channel_handle [of s]
  by (simp add: stop_channel_def)

text \<open>
  C7 as stated fails: after \<^verbatim>\<open>stop_channel\<close> on an open transport, and also after a
  second call, and after a call on a connecting transport, the handle is still set.
\<close>

theorem C7_open_transport_counterexample:
  "is_connected (run [StartChannel, WsOpen 0] fresh) \<and>
   \<not> is_fully_disconnected (stop_channel (run [StartChannel, WsOpen 0] fresh)) \<and>
   \<not> is_fully_disconnected (stop_channel (stop_channel (run [StartChannel, WsOpen 0] fresh))) \<and>
   \<not> is_fully_disconnected (stop_channel (run [StartChannel] fresh))"
  by (simp add: Remote_def start_channel_def stop_channel_def stop_channel_close_def set_timeout_def
      is_connected_def is_fully_disconnected_def ws_opened_def remote_connected_def set_ready_def
      record_status_def Let_def)

text \<open>
  The handle of an open transport is cleared by its close event, when that is the next
  thing to happen.
\<close>

lemma stop_channel_then_close_event:
  assumes "ws s = Some k" and "readyState (sockets s k) = OPEN" and "k < next_socket s"
  shows "ws (stop_channel s) = Some k \<and> ws (step (WsClose k c) (stop_channel s)) = None"
  using assms by (simp add: stop_channel_def stop_channel_close_def set_ready_def)

subsection \<open>Sending\<close>

text \<open>
  C8. Not connected: \<^verbatim>\<open>send_input_reply\<close> fails with the error and leaves the whole
  state as it was, so nothing is sent and the reconnect counter keeps its value.
  Connected: the input-reply notification is sent with the content, the envelope (type
  \<open>input_reply\<close>, channel \<open>stdin\<close>, the id just generated) is handed to the open
  socket, and that id is returned; nothing else changes.
\<close>

theorem C8_send_input_reply:
  "(\<not> is_connected s \<longrightarrow>
      send_input_reply v s = (Inl (Error ''remote is not connected''), s)) \<and>
   (is_connected s \<longrightarrow>
      (\<exists>k. ws s = Some k \<and>
        send_input_reply v s =
          (Inr (Uuid (uuid_count s)),
           s\<lparr>triggered := triggered s @ [ev_input_reply (JObj [(''value'', JStr v)])],
             uuid_count := Suc (uuid_count s),
             sockets := (sockets s)(k := (sockets s k)
               \<lparr>sent := sent (sockets s k) @
                  [\<lparr>header_of = \<lparr>msg_id = Uuid (uuid_count s), username_h = username s,
                                  session_h = session_id s, msg_type = ''input_reply'',
                                  version = ''5.0''\<rparr>,
                    metadata = JObj [], content = JObj [(''value'', JStr v)], buffers = [],
                    parent_header = JObj [], channel = Some ''stdin''\<rparr>]\<rparr>)\<rparr>)))"
  by (cases "ws s")
     (auto simp: send_input_reply_def is_connected_def get_msg_def utils_uuid_def ws_send_def Let_def)

text \<open>C8 at a new client (not connected) and at one whose transport has opened.\<close>

theorem C8_send_input_reply_witness:
  "\<not> is_connected fresh \<and>
   send_input_reply ''42'' fresh = (Inl (Error ''remote is not connected''), fresh) \<and>
   is_connected (run [StartChannel, WsOpen 0] fresh) \<and>
   fst (send_input_reply ''42'' (run [StartChannel, WsOpen 0] fresh)) = Inr (Uuid 0) \<and>
   sent (sockets (snd (send_input_reply ''42'' (run [StartChannel, WsOpen 0] fresh))) 0) =
     [\<lparr>header_of = \<lparr>msg_id = Uuid 0, username_h = ''username'', session_h = ''s1'',
                     msg_type = ''input_reply'', version = ''5.0''\<rparr>,
       metadata = JObj [], content = JObj [(''value'', JStr ''42'')], buffers = [],
       parent_header = JObj [], channel = Some ''stdin''\<rparr>] \<and>
   triggered (snd (send_input_reply ''42'' (run [StartChannel, WsOpen 0] fresh))) =
     [ev_remote_connected, ev_input_reply (JObj [(''value'', JStr ''42'')])]"
proof -
  define c where "c = run [StartChannel, WsOpen 0] fresh"
  have off: "\<not> is_connected fresh"
    by (simp add: op_defs)
  have on: "is_connected c"
    by (simp add: c_def op_defs)
  have at: "ws c = Some 0" "uuid_count c = 0" "username c = ''username''"
    "session_id c = ''s1''" "sent (sockets c 0) = []" "triggered c = [ev_remote_connected]"
    by (simp_all add: c_def op_defs)
  from C8_send_input_reply [of fresh "''42''"] off
  have first: "send_input_reply ''42'' fresh = (Inl (Error ''remote is not connected''), fresh)"
    by blast
  from C8_send_input_reply [of c "''42''"] on
  have "fst (send_input_reply ''42'' c) = Inr (Uuid 0) \<and>
    sent (sockets (snd (send_input_reply ''42'' c)) 0) =
     [\<lparr>header_of = \<lparr>msg_id = Uuid 0, username_h = ''username'', session_h = ''s1'',
                     msg_type = ''input_reply'', version = ''5.0''\<rparr>,
       metadata = JObj [], content = JObj [(''value'', JStr ''42'')], buffers = [],
       parent_header = JObj [], channel = Some ''stdin''\<rparr>] \<and>
    triggered (snd (send_input_reply ''42'' c)) =
     [ev_remote_connected, ev_input_reply (JObj [(''value'', JStr ''42'')])]"
    by (auto simp: at)
  with off on first show ?thesis
    unfolding c_def by blast
qed

subsection \<open>Envelopes\<close>

text \<open>
  C9. The envelope of \<^verbatim>\<open>_get_msg\<close> carries the client's user name and session id,
  the given type, version \<open>5.0\<close>, the given content, the given metadata and buffers or
  the empty object and the empty array when they are omitted (or the metadata is not
  truthy), and an empty parent header.
  The call changes no field of the client (only the count of ids handed out moves on),
  and the next envelope built gets a different id.
\<close>

theorem C9_get_msg:
  "username_h (header_of (fst (get_msg t c md bf s))) = username s \<and>
   session_h (header_of (fst (get_msg t c md bf s))) = session_id s \<and>
   msg_type (header_of (fst (get_msg t c md bf s))) = t \<and>
   version (header_of (fst (get_msg t c md bf s))) = ''5.0'' \<and>
   content (fst (get_msg t c md bf s)) = c \<and>
   metadata (fst (get_msg t c None bf s)) = JObj [] \<and>
   metadata (fst (get_msg t c (Some m) bf s)) = (if truthy m then m else JObj []) \<and>
   buffers (fst (get_msg t c md None s)) = [] \<and>
   buffers (fst (get_msg t c md (Some b) s)) = b \<and>
   parent_header (fst (get_msg t c md bf s)) = JObj [] \<and>
   snd (get_msg t c md bf s) = s\<lparr>uuid_count := Suc (uuid_count s)\<rparr> \<and>
   msg_id (header_of (fst (get_msg t' c' md' bf' (snd (get_msg t c md bf s))))) \<noteq>
     msg_id (header_of (fst (get_msg t c md bf s)))"
  by (simp add: get_msg_def utils_uuid_def)


subsection \<open>What each method leaves alone\<close>

lemma trigger_frame:
  "already_called_onclose (trigger ev s) = already_called_onclose s"
  "next_socket (trigger ev s) = next_socket s"
  "reconnect_limit (trigger ev s) = reconnect_limit s"
  "ws (trigger ev s) = ws s"
  "sockets (trigger ev s) = sockets s"
  "timers (trigger ev s) = timers s"
  "triggered (trigger ev s) = triggered s @ [ev]"
  "reconnect_attempt (trigger ev s) = (if ev = ev_remote_connected then 0 else reconnect_attempt s)"
  by (cases ev; simp add: record_status_def)+

lemma stop_channel_frame:
  "already_called_onclose (stop_channel s) = already_called_onclose s"
  "next_socket (stop_channel s) = next_socket s"
  "reconnect_limit (stop_channel s) = reconnect_limit s"
  "reconnect_attempt (stop_channel s) = reconnect_attempt s"
  "timers (stop_channel s) = timers s"
  "triggered (stop_channel s) = triggered s"
  by (cases "ws s"; simp add: stop_channel_def stop_channel_close_def)+

lemma stop_channel_close_frame:
  "already_called_onclose (stop_channel_close s) = already_called_onclose s"
  "next_socket (stop_channel_close s) = next_socket s"
  "reconnect_limit (stop_channel_close s) = reconnect_limit s"
  "reconnect_attempt (stop_channel_close s) = reconnect_attempt s"
  "timers (stop_channel_close s) = timers s"
  "triggered (stop_channel_close s) = triggered s"
  by (cases "ws s"; simp add: stop_channel_close_def)+

lemma schedule_reconnect_frame:
  "already_called_onclose (schedule_reconnect s) = already_called_onclose s"
  "next_socket (schedule_reconnect s) = next_socket s"
  "reconnect_limit (schedule_reconnect s) = reconnect_limit s"
  "reconnect_attempt (schedule_reconnect s) = reconnect_attempt s"
  "ws (schedule_reconnect s) = ws s"
  "sockets (schedule_reconnect s) = sockets s"
  by (simp_all add: schedule_reconnect_def set_timeout_def Let_def)

lemma ws_closed_frame:
  "already_called_onclose (ws_closed u b s) = already_called_onclose s"
  "next_socket (ws_closed u b s) = next_socket s"
  "reconnect_limit (ws_closed u b s) = reconnect_limit s"
  "reconnect_attempt (ws_closed u b s) = reconnect_attempt s"
  by (simp_all add: ws_closed_def Let_def schedule_reconnect_frame trigger_frame stop_channel_frame
      del: trigger.simps)

lemma handle_ws_message_frame:
  "already_called_onclose (handle_ws_message_with h e s) = already_called_onclose s"
  "next_socket (handle_ws_message_with h e s) = next_socket s"
  "reconnect_limit (handle_ws_message_with h e s) = reconnect_limit s"
  "reconnect_attempt (handle_ws_message_with h e s) = reconnect_attempt s"
  "ws (handle_ws_message_with h e s) = ws s"
  "sockets (handle_ws_message_with h e s) = sockets s"
  "timers (handle_ws_message_with h e s) = timers s"
  "triggered (handle_ws_message_with h e s) = triggered s"
  by (simp_all add: handle_ws_message_with_def Let_def split: prod.splits)

lemma send_input_reply_frame:
  "already_called_onclose (snd (send_input_reply v s)) = already_called_onclose s"
  "next_socket (snd (send_input_reply v s)) = next_socket s"
  "reconnect_limit (snd (send_input_reply v s)) = reconnect_limit s"
  "reconnect_attempt (snd (send_input_reply v s)) = reconnect_attempt s"
  "ws (snd (send_input_reply v s)) = ws s"
  "timers (snd (send_input_reply v s)) = timers s"
  by (cases "ws s"; simp add: send_input_reply_def get_msg_def utils_uuid_def ws_send_def Let_def)+

lemma close_handlers_guard:
  "already_called_onclose (ws_closed_early g c s) x = (x = g \<or> already_called_onclose s x)"
  "already_called_onclose (ws_closed_late g c s) x = (x = g \<or> already_called_onclose s x)"
  "already_called_onclose (ws_error g s) x = (x = g \<or> already_called_onclose s x)"
  by (auto simp: ws_closed_early_def ws_closed_late_def ws_error_def Let_def ws_closed_frame)

lemma close_handlers_frame:
  "next_socket (ws_closed_early g c s) = next_socket s"
  "next_socket (ws_closed_late g c s) = next_socket s"
  "next_socket (ws_error g s) = next_socket s"
  "reconnect_limit (ws_closed_early g c s) = reconnect_limit s"
  "reconnect_limit (ws_closed_late g c s) = reconnect_limit s"
  "reconnect_limit (ws_error g s) = reconnect_limit s"
  "reconnect_attempt (ws_closed_early g c s) = reconnect_attempt s"
  "reconnect_attempt (ws_closed_late g c s) = reconnect_attempt s"
  "reconnect_attempt (ws_error g s) = reconnect_attempt s"
  by (simp_all add: ws_closed_early_def ws_closed_late_def ws_error_def Let_def ws_closed_frame)

lemma run_callback_frame:
  "already_called_onclose (run_callback cb s) = already_called_onclose s"
  "next_socket (run_callback cb s) = next_socket s"
  "reconnect_limit (run_callback cb s) = reconnect_limit s"
  "reconnect_attempt (run_callback cb s) = reconnect_attempt s"
  "ws (run_callback cb s) = ws s"
  "timers (run_callback cb s) = timers s"
  "triggered (run_callback cb s) = triggered s"
  by (cases cb; cases "ws s"; simp add: reconnect_def)+

lemma start_channel_frame:
  "already_called_onclose (start_channel s) = (already_called_onclose s)(next_socket s := False)"
  "next_socket (start_channel s) = Suc (next_socket s)"
  "reconnect_limit (start_channel s) = reconnect_limit s"
  "reconnect_attempt (start_channel s) = reconnect_attempt s"
  "ws (start_channel s) = Some (next_socket s)"
  "triggered (start_channel s) = triggered s"
  by (simp_all add: start_channel_def set_timeout_def Let_def stop_channel_frame)

lemma ws_opened_frame:
  "already_called_onclose (ws_opened s) = already_called_onclose s"
  "next_socket (ws_opened s) = next_socket s"
  "reconnect_limit (ws_opened s) = reconnect_limit s"
  "reconnect_attempt (ws_opened s) \<le> reconnect_attempt s"
  "ws (ws_opened s) = ws s"
  "timers (ws_opened s) = timers s"
  by (simp_all add: ws_opened_def remote_connected_def record_status_def)

lemma set_ready_frame:
  "already_called_onclose (set_ready k r s) = already_called_onclose s"
  "next_socket (set_ready k r s) = next_socket s"
  "reconnect_limit (set_ready k r s) = reconnect_limit s"
  "reconnect_attempt (set_ready k r s) = reconnect_attempt s"
  "ws (set_ready k r s) = ws s"
  "timers (set_ready k r s) = timers s"
  "triggered (set_ready k r s) = triggered s"
  by (simp_all add: set_ready_def)

lemmas unchanged =
  trigger_frame stop_channel_frame stop_channel_close_frame schedule_reconnect_frame
  ws_closed_frame handle_ws_message_frame send_input_reply_frame close_handlers_frame
  run_callback_frame start_channel_frame ws_opened_frame set_ready_frame

subsection \<open>The close guard\<close>

text \<open>
  The flag of a \<^verbatim>\<open>start_channel\<close> call that has happened is never reset, and a handler
  that finds it set returns at once.
\<close>

lemma step_keeps_guard:
  assumes "already_called_onclose s g" and "g < next_socket s"
  shows "already_called_onclose (step x s) g \<and> g < next_socket (step x s)"
proof (cases x)
  case (WsClose k c)
  with assms show ?thesis
    by (cases "onclose (sockets s k)") (simp_all add: unchanged close_handlers_guard)
qed (use assms in \<open>simp_all add: unchanged close_handlers_guard handle_ws_message_def\<close>)

lemma run_keeps_guard:
  "already_called_onclose s g \<Longrightarrow> g < next_socket s \<Longrightarrow>
   already_called_onclose (run xs s) g \<and> g < next_socket (run xs s)"
  by (induction xs arbitrary: s) (simp_all add: step_keeps_guard)

lemma guarded_handlers_skip:
  "already_called_onclose s g \<Longrightarrow> ws_closed_early g c s = s"
  "already_called_onclose s g \<Longrightarrow> ws_closed_late g c s = s"
  "already_called_onclose s g \<Longrightarrow> ws_error g s = s"
  by (simp_all add: ws_closed_early_def ws_closed_late_def ws_error_def)

text \<open>
  C10, as the code has it. When a close event with \<^verbatim>\<open>wasClean\<close> true is handled by the
  early or the late handler of a call whose flag is not yet set, the only changes are the
  socket's ready state (set by the browser) and the flag: no notification, no timer, and
  the handle stays. From then on, whatever else happens, a close event handled by an early
  or late handler of that call and an error event handled by its error handler change
  nothing but the ready state the browser sets.
\<close>

theorem C10_clean_close_amended:
  assumes "k < next_socket s" and "g < next_socket s"
    and "onclose (sockets s k) = early_handler g \<or> onclose (sockets s k) = late_handler g"
    and "\<not> already_called_onclose s g"
  shows "step (WsClose k True) s =
           (set_ready k CLOSED s)\<lparr>already_called_onclose := (already_called_onclose s)(g := True)\<rparr> \<and>
         already_called_onclose (step (WsClose k True) s) g \<and>
         triggered (step (WsClose k True) s) = triggered s \<and>
         timers (step (WsClose k True) s) = timers s \<and>
         ws (step (WsClose k True) s) = ws s \<and>
         (\<forall>xs j c.
            (onclose (sockets (run xs (step (WsClose k True) s)) j) = early_handler g \<or>
             onclose (sockets (run xs (step (WsClose k True) s)) j) = late_handler g \<longrightarrow>
               step (WsClose j c) (run xs (step (WsClose k True) s)) =
                 (if j < next_socket (run xs (step (WsClose k True) s))
                  then set_ready j CLOSED (run xs (step (WsClose k True) s))
                  else run xs (step (WsClose k True) s))) \<and>
            (onerror (sockets (run xs (step (WsClose k True) s)) j) = g \<longrightarrow>
               step (WsError j) (run xs (step (WsClose k True) s)) =
                 (if j < next_socket (run xs (step (WsClose k True) s))
                  then set_ready j CLOSED (run xs (step (WsClose k True) s))
                  else run xs (step (WsClose k True) s))))"
proof -
  let ?s' = "step (WsClose k True) s"
  have now: "?s' = (set_ready k CLOSED s)\<lparr>already_called_onclose := (already_called_onclose s)(g := True)\<rparr>"
    using assms by (auto simp: ws_closed_early_def ws_closed_late_def set_ready_def)
  then have set: "already_called_onclose ?s' g" and low: "g < next_socket ?s'"
    using assms(2) by (simp_all add: set_ready_def)
  have later: "already_called_onclose (run xs ?s') g" for xs
    using run_keeps_guard [OF set low] by simp
  have ready: "already_called_onclose (set_ready j CLOSED (run xs ?s')) g" for xs j
    using later [of xs] by (simp add: set_ready_def)
  have closes: "step (WsClose j c) (run xs ?s') =
      (if j < next_socket (run xs ?s') then set_ready j CLOSED (run xs ?s') else run xs ?s')"
    if "onclose (sockets (run xs ?s') j) = early_handler g \<or>
        onclose (sockets (run xs ?s') j) = late_handler g" for xs j c
    using that ready [of j xs] by (auto simp: guarded_handlers_skip)
  have errors: "step (WsError j) (run xs ?s') =
      (if j < next_socket (run xs ?s') then set_ready j CLOSED (run xs ?s') else run xs ?s')"
    if "onerror (sockets (run xs ?s') j) = g" for xs j
    using that ready [of j xs] by (auto simp: guarded_handlers_skip)
  show ?thesis
    using now set closes errors by (simp add: set_ready_def)
qed

text \<open>C10's theorem at a client whose transport has opened and is closed cleanly by the peer.\<close>

theorem C10_clean_close_witness:
  "0 < next_socket (run [StartChannel, WsOpen 0] fresh) \<and>
   onclose (sockets (run [StartChannel, WsOpen 0] fresh) 0) = early_handler 0 \<and>
   \<not> already_called_onclose (run [StartChannel, WsOpen 0] fresh) 0 \<and>
   already_called_onclose (step (WsClose 0 True) (run [StartChannel, WsOpen 0] fresh)) 0 \<and>
   triggered (step (WsClose 0 True) (run [StartChannel, WsOpen 0] fresh)) = [ev_remote_connected] \<and>
   timers (step (WsClose 0 True) (run [StartChannel, WsOpen 0] fresh)) =
     [\<lparr>delay_ms = 1000, callback = late_switch 0, fired = False\<rparr>] \<and>
   ws (step (WsClose 0 True) (run [StartChannel, WsOpen 0] fresh)) = Some 0 \<and>
   step (WsClose 0 False)
     (run [TimerFire 0] (step (WsClose 0 True) (run [StartChannel, WsOpen 0] fresh))) =
     set_ready 0 CLOSED
       (run [TimerFire 0] (step (WsClose 0 True) (run [StartChannel, WsOpen 0] fresh))) \<and>
   step (WsError 0)
     (run [TimerFire 0] (step (WsClose 0 True) (run [StartChannel, WsOpen 0] fresh))) =
     set_ready 0 CLOSED
       (run [TimerFire 0] (step (WsClose 0 True) (run [StartChannel, WsOpen 0] fresh)))"
proof -
  define c where "c = run [StartChannel, WsOpen 0] fresh"
  define d where "d = run [TimerFire 0] (step (WsClose 0 True) c)"
  have pre: "0 < next_socket c" "onclose (sockets c 0) = early_handler 0"
    "\<not> already_called_onclose c 0"
    by (simp_all add: c_def op_defs)
  have before: "triggered c = [ev_remote_connected]" "ws c = Some 0"
    "timers c = [\<lparr>delay_ms = 1000, callback = late_switch 0, fired = False\<rparr>]"
    by (simp_all add: c_def op_defs)
  have after: "onclose (sockets d 0) = late_handler 0" "onerror (sockets d 0) = 0"
    "0 < next_socket d"
    by (simp_all add: d_def c_def op_defs)
  note all = C10_clean_close_amended [of 0 c 0, OF pre(1) pre(1) disjI1 [OF pre(2)] pre(3)]
  from all have now: "already_called_onclose (step (WsClose 0 True) c) 0"
    "triggered (step (WsClose 0 True) c) = triggered c"
    "timers (step (WsClose 0 True) c) = timers c"
    "ws (step (WsClose 0 True) c) = ws c"
    by blast+
  with before have now': "already_called_onclose (step (WsClose 0 True) c) 0"
    "triggered (step (WsClose 0 True) c) = [ev_remote_connected]"
    "timers (step (WsClose 0 True) c) = [\<lparr>delay_ms = 1000, callback = late_switch 0, fired = False\<rparr>]"
    "ws (step (WsClose 0 True) c) = Some 0"
    by simp_all
  from all have "(onclose (sockets d 0) = early_handler 0 \<or> onclose (sockets d 0) = late_handler 0 \<longrightarrow>
      step (WsClose 0 False) d = (if 0 < next_socket d then set_ready 0 CLOSED d else d)) \<and>
     (onerror (sockets d 0) = 0 \<longrightarrow>
      step (WsError 0) d = (if 0 < next_socket d then set_ready 0 CLOSED d else d))"
    unfolding d_def by blast
  with after have later: "step (WsClose 0 False) d = set_ready 0 CLOSED d"
    "step (WsError 0) d = set_ready 0 CLOSED d"
    by simp_all
  show ?thesis
    using pre now' later unfolding d_def c_def by blast
qed

text \<open>
  C10 as stated fails for the close that \<^verbatim>\<open>stop_channel\<close> asks for: the close event is
  then handled by the \<^verbatim>\<open>close\<close> function of \<^verbatim>\<open>stop_channel\<close>, which clears the
  handle and leaves the flag unset, and a later error event on that transport is handled
  in full.
\<close>

theorem C10_requested_close_counterexample:
  "ws (run [StartChannel, WsOpen 0, StopChannel] fresh) = Some 0 \<and>
   onclose (sockets (run [StartChannel, WsOpen 0, StopChannel] fresh) 0) = close_function \<and>
   ws (run [StartChannel, WsOpen 0, StopChannel, WsClose 0 True] fresh) = None \<and>
   \<not> already_called_onclose (run [StartChannel, WsOpen 0, StopChannel, WsClose 0 True] fresh) 0 \<and>
   triggered (run [StartChannel, WsOpen 0, StopChannel, WsClose 0 True] fresh) = [ev_remote_connected] \<and>
   triggered (run [StartChannel, WsOpen 0, StopChannel, WsClose 0 True, WsError 0] fresh) =
     [ev_remote_connected, ev_remote_disconnected,
      ev_remote_connection_failed ''ws://host/api/sessions/s1/ws'' 0]"
  by (simp add: op_defs)

text \<open>
  Each of the three handlers of a call leaves the call's flag set, and once it is set the
  three of them do nothing, whatever happened in between.
\<close>

lemma call_guard_is_one_shot:
  assumes "g < next_socket s"
  shows "already_called_onclose (ws_closed_early g c s) g \<and>
         already_called_onclose (ws_closed_late g c s) g \<and>
         already_called_onclose (ws_error g s) g \<and>
         (already_called_onclose s g \<longrightarrow>
            (\<forall>xs c'. ws_closed_early g c' (run xs s) = run xs s \<and>
                     ws_closed_late g c' (run xs s) = run xs s \<and>
                     ws_error g (run xs s) = run xs s))"
proof -
  have "ws_closed_early g c' (run xs s) = run xs s \<and>
        ws_closed_late g c' (run xs s) = run xs s \<and> ws_error g (run xs s) = run xs s"
    if "already_called_onclose s g" for xs c'
    using run_keeps_guard [OF that assms, of xs] by (simp add: guarded_handlers_skip)
  then show ?thesis
    by (simp add: close_handlers_guard)
qed

text \<open>
  One transport that opens and closes uncleanly within the grace window: one disconnected
  notification and one reconnect timer of one second, and neither a later error or close
  event nor the late-close timer adds another.
\<close>

lemma early_unclean_close_once:
  "triggered (run [StartChannel, WsOpen 0, WsClose 0 False] fresh) =
     [ev_remote_connected, ev_remote_disconnected] \<and>
   timers (run [StartChannel, WsOpen 0, WsClose 0 False] fresh) =
     [\<lparr>delay_ms = 1000, callback = late_switch 0, fired = False\<rparr>,
      \<lparr>delay_ms = 1000, callback = proxy_reconnect, fired = False\<rparr>] \<and>
   triggered (run [StartChannel, WsOpen 0, WsClose 0 False, WsError 0, TimerFire 0, WsClose 0 False] fresh) =
     [ev_remote_connected, ev_remote_disconnected] \<and>
   map callback (timers (run [StartChannel, WsOpen 0, WsClose 0 False, WsError 0, TimerFire 0, WsClose 0 False] fresh)) =
     [late_switch 0, proxy_reconnect]"
  by (simp add: op_defs)

text \<open>
  C4. The flag belongs to a \<^verbatim>\<open>start_channel\<close> call, and the timer of a call installs
  its late handler on whatever transport \<^verbatim>\<open>this.ws\<close> holds when it runs. After two
  calls within the grace window the second transport has the error handler of the second
  call and, once the first call's timer has run, the late handler of the first: its error
  event and its close event both run their bodies, with two disconnected notifications
  and two reconnect timers.
\<close>

theorem C4_two_paths_on_one_transport:
  "onerror (sockets (run [StartChannel, StartChannel, TimerFire 0] fresh) 1) = 1 \<and>
   onclose (sockets (run [StartChannel, StartChannel, TimerFire 0] fresh) 1) = late_handler 0 \<and>
   triggered (run [StartChannel, StartChannel, TimerFire 0, WsError 1] fresh) =
     [ev_remote_disconnected, ev_remote_connection_failed ''ws://host/api/sessions/s1/ws'' 0] \<and>
   triggered (run [StartChannel, StartChannel, TimerFire 0, WsError 1, WsClose 1 False] fresh) =
     [ev_remote_disconnected, ev_remote_connection_failed ''ws://host/api/sessions/s1/ws'' 0,
      ev_remote_disconnected] \<and>
   filter (\<lambda>t. callback t = proxy_reconnect)
     (timers (run [StartChannel, StartChannel, TimerFire 0, WsError 1, WsClose 1 False] fresh)) =
     [\<lparr>delay_ms = 1000, callback = proxy_reconnect, fired = False\<rparr>,
      \<lparr>delay_ms = 1000, callback = proxy_reconnect, fired = False\<rparr>]"
  by (simp add: op_defs)

subsection \<open>Reconnecting\<close>

text \<open>
  C5. After a loss at attempt count 0 the timer is armed for one second, but its callback
  is \<^verbatim>\<open>$.proxy(this.reconnect, this)\<close> and there is no \<^verbatim>\<open>reconnect\<close>: when it runs,
  no transport is created and the counter keeps its value.
\<close>

theorem C5_timer_calls_nothing:
  "timers (run [StartChannel, WsOpen 0, WsClose 0 False] fresh) =
     [\<lparr>delay_ms = 1000, callback = late_switch 0, fired = False\<rparr>,
      \<lparr>delay_ms = 1000, callback = proxy_reconnect, fired = False\<rparr>] \<and>
   next_socket (run [StartChannel, WsOpen 0, WsClose 0 False] fresh) = 1 \<and>
   next_socket (run [StartChannel, WsOpen 0, WsClose 0 False, TimerFire 1] fresh) = 1 \<and>
   ws (run [StartChannel, WsOpen 0, WsClose 0 False, TimerFire 1] fresh) = None \<and>
   reconnect_attempt (run [StartChannel, WsOpen 0, WsClose 0 False, TimerFire 1] fresh) = 0"
  by (simp add: op_defs)

text \<open>Whatever the state, the reconnect timer does no more than run out.\<close>

lemma reconnect_timer_is_inert:
  assumes "i < length (timers s)" and "callback (timers s ! i) = proxy_reconnect"
  shows "step (TimerFire i) s = s \<or>
         step (TimerFire i) s = s\<lparr>timers := (timers s)[i := (timers s ! i)\<lparr>fired := True\<rparr>]\<rparr>"
  using assms by (simp add: reconnect_def)

lemma step_attempt_limit:
  "reconnect_attempt (step x s) \<le> reconnect_attempt s \<and> reconnect_limit (step x s) = reconnect_limit s"
proof (cases x)
  case (WsClose k c)
  then show ?thesis
    by (cases "onclose (sockets s k)") (simp_all add: unchanged)
next
  case (WsOpen k)
  then show ?thesis
    using ws_opened_frame(4) [of "set_ready k OPEN s"] by (simp add: unchanged)
qed (simp_all add: unchanged handle_ws_message_def)

lemma ws_closed_triggered:
  "reconnect_attempt s < reconnect_limit s \<Longrightarrow>
   triggered (ws_closed u b s) =
     triggered s @ ev_remote_disconnected #
       (if b then [ev_remote_connection_failed u (reconnect_attempt s)] else [])"
  by (simp add: ws_closed_def schedule_reconnect_def set_timeout_def record_status_def Let_def
      stop_channel_frame)

lemma step_no_dead:
  assumes "reconnect_attempt s < reconnect_limit s"
    and "ev_remote_connection_dead n \<notin> set (triggered s)"
  shows "ev_remote_connection_dead n \<notin> set (triggered (step x s))"
proof (cases x)
  case (WsClose k c)
  with assms show ?thesis
    by (cases "onclose (sockets s k)")
       (simp_all add: unchanged ws_closed_early_def ws_closed_late_def ws_closed_triggered Let_def)
next
  case (WsError k)
  with assms show ?thesis
    by (simp add: unchanged ws_error_def ws_closed_triggered Let_def)
next
  case (WsOpen k)
  with assms show ?thesis
    by (simp add: unchanged ws_opened_def remote_connected_def record_status_def)
next
  case (SendInputReply v)
  with assms show ?thesis
    by (cases "ws s")
       (simp_all add: send_input_reply_def get_msg_def utils_uuid_def ws_send_def Let_def)
qed (use assms in \<open>simp_all add: unchanged handle_ws_message_def\<close>)

lemma step_next_socket:
  "next_socket (step x s) = (if x = StartChannel then Suc (next_socket s) else next_socket s)"
proof (cases x)
  case (WsClose k c)
  then show ?thesis
    by (cases "onclose (sockets s k)") (simp_all add: unchanged)
qed (simp_all add: unchanged handle_ws_message_def)

lemma run_never_counts:
  assumes "reconnect_attempt s = 0" and "0 < reconnect_limit s"
    and "ev_remote_connection_dead n \<notin> set (triggered s)"
  shows "reconnect_attempt (run xs s) = 0 \<and>
         ev_remote_connection_dead n \<notin> set (triggered (run xs s)) \<and>
         next_socket (run xs s) = next_socket s + length (filter (\<lambda>x. x = StartChannel) xs)"
  using assms
proof (induction xs arbitrary: s)
  case Nil
  then show ?case by simp
next
  case (Cons x xs)
  have zero: "reconnect_attempt (step x s) = 0" and limit: "0 < reconnect_limit (step x s)"
    using step_attempt_limit [of x s] Cons.prems by simp_all
  have quiet: "ev_remote_connection_dead n \<notin> set (triggered (step x s))"
    using step_no_dead [of s n x] Cons.prems by simp
  show ?case
    using Cons.IH [OF zero limit quiet] by (simp add: step_next_socket)
qed

lemma never_dead:
  "reconnect_attempt (run xs fresh) = 0 \<and>
   ev_remote_connection_dead n \<notin> set (triggered (run xs fresh)) \<and>
   next_socket (run xs fresh) = length (filter (\<lambda>x. x = StartChannel) xs)"
  using run_never_counts [of fresh n xs] by (simp add: Remote_def)

lemma run_append: "run (xs @ ys) s = run ys (run xs s)"
  by (induction xs arbitrary: s) simp_all

lemma failure_arms_timer:
  assumes "reconnect_attempt s < reconnect_limit s"
  shows "timers (run [StartChannel, WsError (next_socket s)] s) =
           timers s @
             [\<lparr>delay_ms = 1000, callback = late_switch (next_socket s), fired = False\<rparr>,
              \<lparr>delay_ms = 1000 * 2 ^ reconnect_attempt s, callback = proxy_reconnect, fired = False\<rparr>]"
  using assms
  by (simp add: start_channel_def set_timeout_def set_ready_def ws_error_def ws_closed_def
      schedule_reconnect_def record_status_def stop_channel_frame Let_def)

text \<open>
  C6. Nothing raises the attempt count, so for a new client, after any calls and events
  whatever, the count is 0, the dead notification has not been sent, no transport exists
  that a caller did not ask for, and one more failing transport arms the one-second timer
  again.
\<close>

theorem C6_dead_never_sent:
  "reconnect_attempt (run xs fresh) = 0 \<and>
   (\<forall>n. ev_remote_connection_dead n \<notin> set (triggered (run xs fresh))) \<and>
   next_socket (run xs fresh) = length (filter (\<lambda>x. x = StartChannel) xs) \<and>
   timers (run (xs @ [StartChannel, WsError (next_socket (run xs fresh))]) fresh) =
     timers (run xs fresh) @
       [\<lparr>delay_ms = 1000, callback = late_switch (next_socket (run xs fresh)), fired = False\<rparr>,
        \<lparr>delay_ms = 1000, callback = proxy_reconnect, fired = False\<rparr>]"
proof -
  have zero: "reconnect_attempt (run xs fresh) = 0"
    and quiet: "ev_remote_connection_dead n \<notin> set (triggered (run xs fresh))"
    and count: "next_socket (run xs fresh) = length (filter (\<lambda>x. x = StartChannel) xs)" for n
    using never_dead [of xs n] by simp_all
  have "reconnect_limit (run xs fresh) = reconnect_limit fresh"
    by (induction xs rule: rev_induct) (simp_all add: run_append step_attempt_limit)
  then have "reconnect_attempt (run xs fresh) < reconnect_limit (run xs fresh)"
    using zero by (simp add: Remote_def)
  from failure_arms_timer [OF this] zero quiet count show ?thesis
    by (simp add: run_append)
qed

subsection \<open>The message sequencer\<close>

lemma dispatched_append: "dispatched (xs @ ys) = dispatched xs @ dispatched ys"
  by (induction xs rule: dispatched.induct) simp_all

lemma reported_append: "reported (xs @ ys) = reported xs @ reported ys"
  by (induction xs rule: reported.induct) simp_all

lemma logged_errors:
  "dispatched (map (Pair t) (map (\<lambda>x. Inl (log_error x)) es)) = []"
  "reported (map (Pair t) (map (\<lambda>x. Inl (log_error x)) es)) = es"
  "dispatched (map (Pair t \<circ> (\<lambda>x. Inl (log_error x))) es) = []"
  "reported (map (Pair t \<circ> (\<lambda>x. Inl (log_error x))) es) = es"
  by (induction es) simp_all

lemma dispatch_step_effects:
  "dispatched (map (Pair t) (snd (dispatch_step t m))) = [(t, m)]"
  "reported (map (Pair t) (snd (dispatch_step t m))) = []"
  "settled_at (fst (dispatch_step t m)) = t"
  "outcome (fst (dispatch_step t m)) =
     (if m = JNull then Rejected (TypeError ''exec'') else Fulfilled ())"
  by (auto simp: dispatch_step_def exec_field_def split: json.splits option.splits)

lemma then_p_fulfilled:
  "outcome p = Fulfilled v \<Longrightarrow>
   then_p p r f =
     (Promise (max (Suc (max (settled_at p) r)) (settled_at (fst (f (Suc (max (settled_at p) r)) v))))
        (outcome (fst (f (Suc (max (settled_at p) r)) v))),
      map (Pair (Suc (max (settled_at p) r))) (snd (f (Suc (max (settled_at p) r)) v)))"
  by (simp add: then_p_def case_prod_beta)

lemma then_p_rejected:
  "outcome p = Rejected x \<Longrightarrow> then_p p r f = (Promise (Suc (max (settled_at p) r)) (Rejected x), [])"
  by (simp add: then_p_def)

lemma catch_p_fulfilled:
  "outcome p = Fulfilled v \<Longrightarrow> catch_p p r f = (Promise (Suc (max (settled_at p) r)) (Fulfilled v), [])"
  by (simp add: catch_p_def)

lemma catch_p_rejected:
  "outcome p = Rejected x \<Longrightarrow>
   catch_p p r f =
     (Promise (max (Suc (max (settled_at p) r)) (settled_at (fst (f (Suc (max (settled_at p) r)) x))))
        (outcome (fst (f (Suc (max (settled_at p) r)) x))),
      map (Pair (Suc (max (settled_at p) r))) (snd (f (Suc (max (settled_at p) r)) x)))"
  by (simp add: catch_p_def case_prod_beta)

lemma later_turn:
  "max (Suc (max T a + l)) a = Suc (max T a + l)"
  "max (Suc (Suc (max T a + l))) a = Suc (Suc (max T a + l))"
  "max (Suc (max T a)) a = Suc (max T a)"
  "max (Suc (Suc (max T a))) a = Suc (Suc (max T a))"
  by simp_all

text \<open>One frame, by the state of the queue and the result of the decoding.\<close>

lemma frame_after_rejection:
  assumes "outcome (msg_queue s) = Rejected x"
  shows "handle_ws_message_with h e s =
    s\<lparr>msg_queue :=
        Promise (max (Suc (Suc (Suc (max (settled_at (msg_queue s)) (arrival e)))))
                   (settled_at (fst (h (Suc (Suc (Suc (max (settled_at (msg_queue s)) (arrival e))))) x))))
          (outcome (fst (h (Suc (Suc (Suc (max (settled_at (msg_queue s)) (arrival e))))) x))),
      processed := processed s @
        map (Pair (Suc (Suc (Suc (max (settled_at (msg_queue s)) (arrival e))))))
          (map (\<lambda>x. Inl (log_error x))
             (snd (h (Suc (Suc (Suc (max (settled_at (msg_queue s)) (arrival e))))) x)))\<rparr>"
  using assms
  by (simp add: handle_ws_message_with_def then_p_rejected catch_p_rejected later_turn
      case_prod_beta)

lemma frame_decode_fails:
  assumes "outcome (msg_queue s) = Fulfilled u" and "decoded e = Inl x"
  shows "handle_ws_message_with h e s =
    s\<lparr>msg_queue :=
        Promise (max (Suc (Suc (Suc (max (settled_at (msg_queue s)) (arrival e) + decode_latency e))))
                   (settled_at (fst (h (Suc (Suc (Suc (max (settled_at (msg_queue s)) (arrival e) + decode_latency e)))) x))))
          (outcome (fst (h (Suc (Suc (Suc (max (settled_at (msg_queue s)) (arrival e) + decode_latency e)))) x))),
      processed := processed s @
        map (Pair (Suc (Suc (Suc (max (settled_at (msg_queue s)) (arrival e) + decode_latency e)))))
          (map (\<lambda>x. Inl (log_error x))
             (snd (h (Suc (Suc (Suc (max (settled_at (msg_queue s)) (arrival e) + decode_latency e)))) x)))\<rparr>"
  using assms
  by (simp add: handle_ws_message_with_def then_p_fulfilled then_p_rejected catch_p_rejected
      decode_step_def later_turn case_prod_beta)

lemma frame_dispatch_fails:
  assumes "outcome (msg_queue s) = Fulfilled u" and "decoded e = Inr JNull"
  shows "handle_ws_message_with h e s =
    s\<lparr>msg_queue :=
        Promise (max (Suc (Suc (Suc (max (settled_at (msg_queue s)) (arrival e) + decode_latency e))))
                   (settled_at (fst (h (Suc (Suc (Suc (max (settled_at (msg_queue s)) (arrival e) + decode_latency e)))) (TypeError ''exec'')))))
          (outcome (fst (h (Suc (Suc (Suc (max (settled_at (msg_queue s)) (arrival e) + decode_latency e)))) (TypeError ''exec'')))),
      processed := processed s @
        (Suc (Suc (max (settled_at (msg_queue s)) (arrival e) + decode_latency e)), Inl (log_message JNull)) #
        map (Pair (Suc (Suc (Suc (max (settled_at (msg_queue s)) (arrival e) + decode_latency e)))))
          (map (\<lambda>x. Inl (log_error x))
             (snd (h (Suc (Suc (Suc (max (settled_at (msg_queue s)) (arrival e) + decode_latency e)))) (TypeError ''exec''))))\<rparr>"
  using assms
  by (simp add: handle_ws_message_with_def then_p_fulfilled catch_p_rejected
      decode_step_def dispatch_step_def exec_field_def later_turn case_prod_beta)

lemma frame_dispatched:
  assumes "outcome (msg_queue s) = Fulfilled u" and "decoded e = Inr m" and "m \<noteq> JNull"
  shows "handle_ws_message_with h e s =
    s\<lparr>msg_queue :=
        Promise (Suc (Suc (Suc (max (settled_at (msg_queue s)) (arrival e) + decode_latency e))))
          (Fulfilled ()),
      processed := processed s @
        map (Pair (Suc (Suc (max (settled_at (msg_queue s)) (arrival e) + decode_latency e))))
          (snd (dispatch_step (Suc (Suc (max (settled_at (msg_queue s)) (arrival e) + decode_latency e))) m))\<rparr>"
  using assms
  by (simp add: handle_ws_message_with_def then_p_fulfilled catch_p_fulfilled
      decode_step_def dispatch_step_effects later_turn case_prod_beta)

lemma handle_dispatched:
  "dispatched (processed (handle_ws_message_with h e s)) =
     dispatched (processed s) @
       (case outcome (msg_queue s) of
          Rejected x \<Rightarrow> []
        | Fulfilled u \<Rightarrow>
            map (Pair (Suc (Suc (max (settled_at (msg_queue s)) (arrival e) + decode_latency e))))
              (decoded_message e))"
proof (cases "outcome (msg_queue s)")
  case (Rejected x)
  then show ?thesis
    by (simp add: frame_after_rejection dispatched_append logged_errors)
next
  case (Fulfilled u)
  show ?thesis
  proof (cases "decoded e")
    case (Inl x)
    with Fulfilled show ?thesis
      by (simp add: frame_decode_fails dispatched_append logged_errors decoded_message_def)
  next
    case (Inr m)
    with Fulfilled show ?thesis
      by (cases "m = JNull")
         (simp_all add: frame_dispatch_fails frame_dispatched dispatched_append logged_errors
            dispatch_step_effects decoded_message_def)
  qed
qed

lemma handle_settles_later:
  "Suc (Suc (max (settled_at (msg_queue s)) (arrival e) +
      (case outcome (msg_queue s) of Rejected x \<Rightarrow> 0 | Fulfilled u \<Rightarrow> decode_latency e)))
   < settled_at (msg_queue (handle_ws_message_with h e s))"
proof (cases "outcome (msg_queue s)")
  case (Rejected x)
  then show ?thesis
    by (simp add: frame_after_rejection)
next
  case (Fulfilled u)
  show ?thesis
  proof (cases "decoded e")
    case (Inl x)
    with Fulfilled show ?thesis
      by (simp add: frame_decode_fails)
  next
    case (Inr m)
    with Fulfilled show ?thesis
      by (cases "m = JNull") (simp_all add: frame_dispatch_fails frame_dispatched)
  qed
qed

text \<open>
  The invariant of the sequencer: the dispatch turns recorded so far are increasing and
  none is later than the turn in which the queue's promise settles.
\<close>

lemma handle_keeps_order:
  assumes "sorted_wrt (<) (map fst (dispatched (processed s)))"
    and "\<forall>t\<in>set (map fst (dispatched (processed s))). t \<le> settled_at (msg_queue s)"
  shows "sorted_wrt (<) (map fst (dispatched (processed (handle_ws_message_with h e s)))) \<and>
         (\<forall>t\<in>set (map fst (dispatched (processed (handle_ws_message_with h e s)))).
             t \<le> settled_at (msg_queue (handle_ws_message_with h e s)))"
proof -
  let ?s' = "handle_ws_message_with h e s"
  let ?turn = "Suc (Suc (max (settled_at (msg_queue s)) (arrival e) + decode_latency e))"
  have older: "settled_at (msg_queue s) < settled_at (msg_queue ?s')"
    using handle_settles_later [of s e h] by simp
  consider
    (none) "dispatched (processed ?s') = dispatched (processed s)"
  | (one) m u where "dispatched (processed ?s') = dispatched (processed s) @ [(?turn, m)]"
      and "outcome (msg_queue s) = Fulfilled u"
    by (cases "outcome (msg_queue s)"; cases "decoded e")
       (simp_all add: handle_dispatched decoded_message_def)
  then show ?thesis
  proof cases
    case none
    have "t \<le> settled_at (msg_queue ?s')" if "t \<in> set (map fst (dispatched (processed s)))" for t
      using assms(2) that older by fastforce
    with none assms(1) show ?thesis
      by simp
  next
    case one
    have before: "settled_at (msg_queue s) < ?turn"
      by simp
    have after: "?turn < settled_at (msg_queue ?s')"
      using handle_settles_later [of s e h] one(2) by simp
    have old: "t < ?turn \<and> t \<le> settled_at (msg_queue ?s')"
      if "t \<in> set (map fst (dispatched (processed s)))" for t
    proof -
      from assms(2) that have "t \<le> settled_at (msg_queue s)"
        by blast
      with before older show ?thesis
        by linarith
    qed
    have "sorted_wrt (<) (map fst (dispatched (processed s)) @ [?turn])"
      unfolding sorted_wrt_append using assms(1) old by simp
    moreover have "\<forall>t\<in>set (map fst (dispatched (processed s)) @ [?turn]).
        t \<le> settled_at (msg_queue ?s')"
      using old after by auto
    ultimately show ?thesis
      by (simp add: one(1))
  qed
qed

lemma receive_keeps_order:
  assumes "sorted_wrt (<) (map fst (dispatched (processed s)))"
    and "\<forall>t\<in>set (map fst (dispatched (processed s))). t \<le> settled_at (msg_queue s)"
  shows "sorted_wrt (<) (map fst (dispatched (processed (receive_with h fs s))))"
  using assms
proof (induction fs arbitrary: s)
  case Nil
  then show ?case by simp
next
  case (Cons e fs)
  from handle_keeps_order [OF Cons.prems, of h e] show ?case
    using Cons.IH [of "handle_ws_message_with h e s"] by simp
qed

lemma receive_subseq:
  "\<exists>ms. map snd (dispatched (processed (receive_with h fs s))) =
           map snd (dispatched (processed s)) @ ms \<and>
         subseq ms (concat (map decoded_message fs))"
proof (induction fs arbitrary: s)
  case Nil
  then show ?case by simp
next
  case (Cons e fs)
  obtain ms where rest: "map snd (dispatched (processed (receive_with h fs (handle_ws_message_with h e s)))) =
      map snd (dispatched (processed (handle_ws_message_with h e s))) @ ms"
    and sub: "subseq ms (concat (map decoded_message fs))"
    using Cons.IH [of "handle_ws_message_with h e s"] by blast
  let ?first = "case outcome (msg_queue s) of Rejected x \<Rightarrow> [] | Fulfilled u \<Rightarrow> decoded_message e"
  have first: "map snd (dispatched (processed (handle_ws_message_with h e s))) =
      map snd (dispatched (processed s)) @ ?first"
    by (cases "outcome (msg_queue s)") (simp_all add: handle_dispatched comp_def)
  have "subseq ?first (decoded_message e)"
    by (cases "outcome (msg_queue s)") simp_all
  then have "subseq (?first @ ms) (decoded_message e @ concat (map decoded_message fs))"
    using sub by (rule list_emb_append_mono)
  with rest first show ?case
    by auto
qed

lemma receive_all:
  assumes "outcome (msg_queue s) = Fulfilled ()"
    and "list_all (\<lambda>e. \<exists>m. decoded e = Inr m \<and> m \<noteq> JNull) fs"
  shows "map snd (dispatched (processed (receive_with h fs s))) =
           map snd (dispatched (processed s)) @ concat (map decoded_message fs)"
  using assms
proof (induction fs arbitrary: s)
  case Nil
  then show ?case by simp
next
  case (Cons e fs)
  then obtain m where m: "decoded e = Inr m" "m \<noteq> JNull"
    by auto
  with Cons.prems have "outcome (msg_queue (handle_ws_message_with h e s)) = Fulfilled ()"
    by (simp add: frame_dispatched)
  with Cons show ?case
    by (simp add: handle_dispatched comp_def)
qed

lemma dispatch_order_sorted:
  "sorted_wrt (<) (map fst (dispatched (processed s))) \<Longrightarrow>
   dispatch_order s = map snd (dispatched (processed s))"
  by (simp add: dispatch_order_def sort_key_id_if_sorted strict_sorted_imp_sorted)

lemma new_client_queue:
  "processed (Remote u i b l) = []" "outcome (msg_queue (Remote u i b l)) = Fulfilled ()"
  by (simp_all add: Remote_def promise_resolve_def)

lemma receive_with_frame:
  "ws (receive_with h fs s) = ws s"
  "sockets (receive_with h fs s) = sockets s"
  "triggered (receive_with h fs s) = triggered s"
  by (induction fs arbitrary: s) (simp_all add: handle_ws_message_frame)

lemma receive_unfold:
  "receive fs s = receive_with (utils_reject ''Couldn't process remote message'' True) fs s"
  by (induction fs arbitrary: s) (simp_all add: handle_ws_message_def)

text \<open>With the handler of \<open>utils_reject\<close> the queue is fulfilled after every frame.\<close>

lemma handle_recovers:
  "outcome (msg_queue (handle_ws_message_with (utils_reject t lg) e s)) = Fulfilled ()"
proof (cases "outcome (msg_queue s)")
  case (Rejected x)
  then show ?thesis
    by (simp add: frame_after_rejection utils_reject_def)
next
  case (Fulfilled u)
  show ?thesis
  proof (cases "decoded e")
    case (Inl x)
    with Fulfilled show ?thesis
      by (simp add: frame_decode_fails utils_reject_def)
  next
    case (Inr m)
    with Fulfilled show ?thesis
      by (cases "m = JNull") (simp_all add: frame_dispatch_fails frame_dispatched utils_reject_def)
  qed
qed

lemma handle_reports:
  assumes "outcome (msg_queue s) = Fulfilled u"
  shows "reported (processed (handle_ws_message_with (utils_reject t True) e s)) =
           reported (processed s) @ map (WrappedError t) (failure e)"
proof (cases "decoded e")
  case (Inl x)
  with assms show ?thesis
    by (simp add: frame_decode_fails utils_reject_def reported_append failure_def)
next
  case (Inr m)
  with assms show ?thesis
    by (cases "m = JNull")
       (auto simp: frame_dispatch_fails frame_dispatched utils_reject_def reported_append
          failure_def exec_field_def dispatch_step_effects split: json.splits)
qed

lemma receive_recovers:
  assumes "outcome (msg_queue s) = Fulfilled ()"
  shows "map snd (dispatched (processed (receive_with (utils_reject t True) fs s))) =
           map snd (dispatched (processed s)) @ concat (map decoded_message fs) \<and>
         reported (processed (receive_with (utils_reject t True) fs s)) =
           reported (processed s) @ map (WrappedError t) (concat (map failure fs)) \<and>
         outcome (msg_queue (receive_with (utils_reject t True) fs s)) = Fulfilled ()"
  using assms
proof (induction fs arbitrary: s)
  case Nil
  then show ?case by simp
next
  case (Cons e fs)
  have next_ok: "outcome (msg_queue (handle_ws_message_with (utils_reject t True) e s)) = Fulfilled ()"
    by (rule handle_recovers)
  have first: "map snd (dispatched (processed (handle_ws_message_with (utils_reject t True) e s))) =
      map snd (dispatched (processed s)) @ decoded_message e"
    using Cons.prems by (simp add: handle_dispatched comp_def)
  have errs: "reported (processed (handle_ws_message_with (utils_reject t True) e s)) =
      reported (processed s) @ map (WrappedError t) (failure e)"
    using Cons.prems by (rule handle_reports)
  from Cons.IH [OF next_ok] first errs show ?case
    by simp
qed

text \<open>
  What a frame's three reactions do is stamped with turns after the one in which the
  queue before it settled, and not after the one in which the queue settles with it.
\<close>

lemma frame_effects_between:
  "\<exists>new. processed (handle_ws_message_with h e s) = processed s @ new \<and>
     (\<forall>x\<in>set new. settled_at (msg_queue s) < fst x \<and>
        fst x \<le> settled_at (msg_queue (handle_ws_message_with h e s)))"
proof (cases "outcome (msg_queue s)")
  case (Rejected x)
  then show ?thesis
    by (auto simp: frame_after_rejection)
next
  case (Fulfilled u)
  show ?thesis
  proof (cases "decoded e")
    case (Inl x)
    with Fulfilled show ?thesis
      by (auto simp: frame_decode_fails)
  next
    case (Inr m)
    with Fulfilled show ?thesis
      by (cases "m = JNull") (auto simp: frame_dispatch_fails frame_dispatched)
  qed
qed

text \<open>
  C2. For any frames, any arrival turns, any decode latencies and decode results, and any
  handler given to \<^verbatim>\<open>catch\<close>. The queue before a frame settles when the frame before
  it has been dispatched or has failed, and all that the frame's own reactions do,
  its dispatch step among it, happens in later turns. So the dispatch steps run in
  strictly increasing turns in the order in which the frames were handed over, and the
  messages listed by the turn of their dispatch are frames' messages in arrival order.
  When every frame decodes to a message that can be dispatched, they are the messages of
  all the frames.
\<close>

theorem C2_dispatch_in_arrival_order:
  "(\<exists>new. processed (handle_ws_message_with h e s) = processed s @ new \<and>
      (\<forall>x\<in>set new. settled_at (msg_queue s) < fst x \<and>
         fst x \<le> settled_at (msg_queue (handle_ws_message_with h e s)))) \<and>
   sorted_wrt (<) (map fst (dispatched (processed (receive_with h fs (Remote u i b l))))) \<and>
   subseq (dispatch_order (receive_with h fs (Remote u i b l))) (concat (map decoded_message fs)) \<and>
   (list_all (\<lambda>e. \<exists>m. decoded e = Inr m \<and> m \<noteq> JNull) fs \<longrightarrow>
      dispatch_order (receive_with h fs (Remote u i b l)) = concat (map decoded_message fs))"
proof -
  let ?s = "Remote u i b l"
  have order: "sorted_wrt (<) (map fst (dispatched (processed (receive_with h fs ?s))))"
    by (rule receive_keeps_order) (simp_all add: new_client_queue)
  then have by_turn: "dispatch_order (receive_with h fs ?s) =
      map snd (dispatched (processed (receive_with h fs ?s)))"
    by (rule dispatch_order_sorted)
  have "subseq (dispatch_order (receive_with h fs ?s)) (concat (map decoded_message fs))"
    using receive_subseq [of h fs ?s] by (auto simp: by_turn new_client_queue)
  moreover have "dispatch_order (receive_with h fs ?s) = concat (map decoded_message fs)"
    if "list_all (\<lambda>e. \<exists>m. decoded e = Inr m \<and> m \<noteq> JNull) fs"
    using receive_all [of ?s fs h] that by (simp add: by_turn new_client_queue)
  ultimately show ?thesis
    using order frame_effects_between [of h e s] by blast
qed

text \<open>
  C2 at three frames whose decoding takes 10, 0 and 4 turns: they are dispatched in
  turns 13, 16 and 23. The queue settles with the first frame in turn 14, and what the
  second frame does comes after that.
\<close>

theorem C2_dispatch_order_witness:
  "list_all (\<lambda>e. \<exists>m. decoded e = Inr m \<and> m \<noteq> JNull)
     [\<lparr>data = ''a'', arrival = 1, decode_latency = 10, decoded = Inr (JObj [(''exec'', JStr ''x'')])\<rparr>,
      \<lparr>data = ''b'', arrival = 2, decode_latency = 0, decoded = Inr (JObj [])\<rparr>,
      \<lparr>data = ''c'', arrival = 3, decode_latency = 4, decoded = Inr (JStr ''hello'')\<rparr>] \<and>
   dispatch_order
     (receive_with (utils_reject ''Couldn't process remote message'' True)
        [\<lparr>data = ''a'', arrival = 1, decode_latency = 10, decoded = Inr (JObj [(''exec'', JStr ''x'')])\<rparr>,
         \<lparr>data = ''b'', arrival = 2, decode_latency = 0, decoded = Inr (JObj [])\<rparr>,
         \<lparr>data = ''c'', arrival = 3, decode_latency = 4, decoded = Inr (JStr ''hello'')\<rparr>]
        fresh) =
     [JObj [(''exec'', JStr ''x'')], JObj [], JStr ''hello''] \<and>
   dispatched (processed
     (receive_with (utils_reject ''Couldn't process remote message'' True)
        [\<lparr>data = ''a'', arrival = 1, decode_latency = 10, decoded = Inr (JObj [(''exec'', JStr ''x'')])\<rparr>,
         \<lparr>data = ''b'', arrival = 2, decode_latency = 0, decoded = Inr (JObj [])\<rparr>,
         \<lparr>data = ''c'', arrival = 3, decode_latency = 4, decoded = Inr (JStr ''hello'')\<rparr>]
        fresh)) =
     [(13, JObj [(''exec'', JStr ''x'')]), (16, JObj []), (23, JStr ''hello'')] \<and>
   settled_at (msg_queue
     (receive_with (utils_reject ''Couldn't process remote message'' True)
        [\<lparr>data = ''a'', arrival = 1, decode_latency = 10, decoded = Inr (JObj [(''exec'', JStr ''x'')])\<rparr>]
        fresh)) = 14 \<and>
   processed
     (handle_ws_message_with (utils_reject ''Couldn't process remote message'' True)
        \<lparr>data = ''b'', arrival = 2, decode_latency = 0, decoded = Inr (JObj [])\<rparr>
        (receive_with (utils_reject ''Couldn't process remote message'' True)
           [\<lparr>data = ''a'', arrival = 1, decode_latency = 10, decoded = Inr (JObj [(''exec'', JStr ''x'')])\<rparr>]
           fresh)) =
   processed
     (receive_with (utils_reject ''Couldn't process remote message'' True)
        [\<lparr>data = ''a'', arrival = 1, decode_latency = 10, decoded = Inr (JObj [(''exec'', JStr ''x'')])\<rparr>]
        fresh) @ [(16, Inl (log_message (JObj [])))]"
proof -
  let ?fs = "[\<lparr>data = ''a'', arrival = 1, decode_latency = 10, decoded = Inr (JObj [(''exec'', JStr ''x'')])\<rparr>,
      \<lparr>data = ''b'', arrival = 2, decode_latency = 0, decoded = Inr (JObj [])\<rparr>,
      \<lparr>data = ''c'', arrival = 3, decode_latency = 4, decoded = Inr (JStr ''hello'')\<rparr>]"
  have good: "list_all (\<lambda>e. \<exists>m. decoded e = Inr m \<and> m \<noteq> JNull) ?fs"
    by simp
  have msgs: "concat (map decoded_message ?fs) = [JObj [(''exec'', JStr ''x'')], JObj [], JStr ''hello'']"
    by (simp add: decoded_message_def)
  have turns: "dispatched (processed
      (receive_with (utils_reject ''Couldn't process remote message'' True) ?fs fresh)) =
      [(13, JObj [(''exec'', JStr ''x'')]), (16, JObj []), (23, JStr ''hello'')]"
    by (simp add: frame_dispatched dispatched_append dispatch_step_effects
        Remote_def promise_resolve_def)
  from C2_dispatch_in_arrival_order
    [of "utils_reject ''Couldn't process remote message'' True" _ _ ?fs "''ws://host''" "''s1''" "[]" "[]"]
    good
  have "dispatch_order (receive_with (utils_reject ''Couldn't process remote message'' True) ?fs fresh) =
    concat (map decoded_message ?fs)"
    by blast
  moreover have "settled_at (msg_queue
     (receive_with (utils_reject ''Couldn't process remote message'' True)
        [\<lparr>data = ''a'', arrival = 1, decode_latency = 10, decoded = Inr (JObj [(''exec'', JStr ''x'')])\<rparr>]
        fresh)) = 14 \<and>
   processed
     (handle_ws_message_with (utils_reject ''Couldn't process remote message'' True)
        \<lparr>data = ''b'', arrival = 2, decode_latency = 0, decoded = Inr (JObj [])\<rparr>
        (receive_with (utils_reject ''Couldn't process remote message'' True)
           [\<lparr>data = ''a'', arrival = 1, decode_latency = 10, decoded = Inr (JObj [(''exec'', JStr ''x'')])\<rparr>]
           fresh)) =
   processed
     (receive_with (utils_reject ''Couldn't process remote message'' True)
        [\<lparr>data = ''a'', arrival = 1, decode_latency = 10, decoded = Inr (JObj [(''exec'', JStr ''x'')])\<rparr>]
        fresh) @ [(16, Inl (log_message (JObj [])))]"
    by (simp add: frame_dispatched dispatch_step_def exec_field_def
        Remote_def promise_resolve_def)
  ultimately show ?thesis
    using good msgs turns by simp
qed

text \<open>
  C3. With the handler of \<open>utils_reject\<close>, whatever frames fail in decoding or in
  dispatch: every frame that decodes is dispatched, in arrival order; every failure is
  reported, wrapped in the handler's message; the queue ends fulfilled; and the transport
  handle, the sockets and the notifications sent so far are untouched.
\<close>

theorem C3_failure_isolation:
  "dispatch_order (receive fs (Remote u i b l)) = concat (map decoded_message fs) \<and>
   sorted_wrt (<) (map fst (dispatched (processed (receive fs (Remote u i b l))))) \<and>
   reported (processed (receive fs (Remote u i b l))) =
     map (WrappedError ''Couldn't process remote message'') (concat (map failure fs)) \<and>
   outcome (msg_queue (receive fs (Remote u i b l))) = Fulfilled () \<and>
   ws (receive fs s) = ws s \<and> sockets (receive fs s) = sockets s \<and>
   triggered (receive fs s) = triggered s"
proof -
  let ?s = "Remote u i b l"
  let ?h = "utils_reject ''Couldn't process remote message'' True"
  have order: "sorted_wrt (<) (map fst (dispatched (processed (receive_with ?h fs ?s))))"
    by (rule receive_keeps_order) (simp_all add: new_client_queue)
  then have by_turn: "dispatch_order (receive_with ?h fs ?s) =
      map snd (dispatched (processed (receive_with ?h fs ?s)))"
    by (rule dispatch_order_sorted)
  from receive_recovers [of ?s "''Couldn't process remote message''" fs]
  have "dispatch_order (receive_with ?h fs ?s) = concat (map decoded_message fs)"
    and "reported (processed (receive_with ?h fs ?s)) =
      map (WrappedError ''Couldn't process remote message'') (concat (map failure fs))"
    and "outcome (msg_queue (receive_with ?h fs ?s)) = Fulfilled ()"
    by (simp_all add: by_turn new_client_queue)
  with order show ?thesis
    by (simp add: receive_unfold receive_with_frame)
qed

text \<open>
  A handler that answers every error with a rejected promise leaves the queue rejected,
  and no later frame reaches its dispatch step.
\<close>

lemma rejecting_handler_keeps_rejection:
  assumes "\<And>t x. \<exists>t' x'. fst (h t x) = Promise t' (Rejected x')"
    and "outcome (msg_queue s) = Rejected x"
  shows "dispatched (processed (receive_with h fs s)) = dispatched (processed s)"
  using assms(2)
proof (induction fs arbitrary: s x)
  case Nil
  then show ?case by simp
next
  case (Cons e fs)
  let ?t = "Suc (Suc (Suc (max (settled_at (msg_queue s)) (arrival e))))"
  obtain t' x' where "fst (h ?t x) = Promise t' (Rejected x')"
    using assms(1) by blast
  with Cons.prems have "outcome (msg_queue (handle_ws_message_with h e s)) = Rejected x'"
    by (simp add: frame_after_rejection)
  from Cons.IH [OF this] Cons.prems show ?case
    by (simp add: handle_dispatched)
qed

lemma rejecting_handler_skips_later_frames:
  assumes "\<And>t x. \<exists>t' x'. fst (h t x) = Promise t' (Rejected x')"
    and "outcome (msg_queue s) = Fulfilled u" and "decoded bad = Inl x"
  shows "dispatched (processed (receive_with h (bad # fs) s)) = dispatched (processed s)"
proof -
  let ?t = "Suc (Suc (Suc (max (settled_at (msg_queue s)) (arrival bad) + decode_latency bad)))"
  obtain t' x' where "fst (h ?t x) = Promise t' (Rejected x')"
    using assms(1) by blast
  with assms(2,3) have "outcome (msg_queue (handle_ws_message_with h bad s)) = Rejected x'"
    by (simp add: frame_decode_fails)
  from rejecting_handler_keeps_rejection [of h, OF assms(1) this] assms(2,3) show ?thesis
    by (simp add: handle_dispatched decoded_message_def)
qed

end
